theory Spec2Isabelle
  imports Main "HOL-Library.List_Lexorder" "HOL-Library.Char_ord" "HOL-Library.Option_ord"
    "HOL-Library.Sublist"
begin

section \<open>The remote API as the commands see it\<close>

text \<open>
  forkwork is a thin client: every piece of data comes from a call into the GitHub
  client library, and a call either returns or raises. The exceptions the commands can
  meet are values of \<open>exn\<close>; \<open>NotFoundError\<close> is the library's 404.
\<close>

datatype exn =
  NotFoundError | AuthenticationFailed | ConnectionError | AttributeError | ValueError
  | ParserError

text \<open>
  The library hands out lazy iterators: iterating fetches page after page, so an
  iterator yields some items and then either is exhausted or raises.
\<close>

datatype 'a iter = Done | Yield 'a "'a iter" | Raise exn

text \<open>\<open>list(it)\<close>: all items, or the exception the iteration raises.\<close>

fun to_list :: "'a iter \<Rightarrow> exn + 'a list" where
  "to_list Done = Inr []"
| "to_list (Raise e) = Inl e"
| "to_list (Yield x it) = (case to_list it of Inl e \<Rightarrow> Inl e | Inr xs \<Rightarrow> Inr (x # xs))"

text \<open>The items an iterator yields before it ends, and how it ends.\<close>

fun items :: "'a iter \<Rightarrow> 'a list" where
  "items Done = []"
| "items (Raise e) = []"
| "items (Yield x it) = x # items it"

fun iter_end :: "'a iter \<Rightarrow> exn option" where
  "iter_end Done = None"
| "iter_end (Raise e) = Some e"
| "iter_end (Yield x it) = iter_end it"

record commit =
  sha :: string
  message :: string
  html_url :: string

record contributor =
  contributions_count :: int

record user =
  login :: string

record fork =
  html_url :: string
  owner :: user
  name :: string
  stargazers_count :: int
  forks_count :: int
  open_issues_count :: int
  updated_at :: string
  pushed_at :: string
  commits :: "commit iter"
  branches :: "string iter"
  contributors :: "contributor iter"

record repository =
  commits :: "commit iter"
  forks :: "fork iter"
  subscribers_count :: int

text \<open>The logged-in session \<open>gh\<close>; \<open>gh.repository(owner, name)\<close> is its one call used here.\<close>

record github =
  repository :: "string \<Rightarrow> string \<Rightarrow> exn + repository"

section \<open>The shared context built by \<open>cli\<close>\<close>

text \<open>
  Python is untyped: the \<open>repository\<close> field of the context holds whatever \<open>cli\<close>
  puts there, a string or a repository object.
\<close>

datatype pyobj = Str string | Repository repository

record RepoCtx =
  repository :: pyobj
  forks :: "fork iter"
  gh :: github

text \<open>\<open>s.split(sep)\<close> for a one-character separator.\<close>

fun split_on :: "char \<Rightarrow> string \<Rightarrow> string list" where
  "split_on sep [] = [[]]"
| "split_on sep (c # cs) =
     (if c = sep then [] # split_on sep cs
      else (case split_on sep cs of w # ws \<Rightarrow> (c # w) # ws | [] \<Rightarrow> [[c]]))"

text \<open>
  \<open>cli\<close> after the login, which yields the session \<open>gh\<close>; \<open>path\<close> is
  \<open>urlparse(url).path\<close>. Unpacking anything but two parts raises ValueError. The last
  line of \<open>cli\<close> is \<open>ctx.obj = RepoCtx(repo, forks, gh)\<close>, with \<open>repo\<close> the second
  part of the path.
\<close>

definition cli :: "github \<Rightarrow> string \<Rightarrow> exn + RepoCtx" where
  "cli gh_session path =
     (case split_on CHR ''/'' (drop 1 path) of
        [login_part, repo] \<Rightarrow>
          (case github.repository gh_session login_part repo of
             Inl e \<Rightarrow> Inl e
           | Inr fetched \<Rightarrow>
               Inr \<lparr>repository = Str repo, forks = repository.forks fetched, gh = gh_session\<rparr>)
      | _ \<Rightarrow> Inl ValueError)"

section \<open>Output\<close>

text \<open>
  The rows of \<open>top\<close>: the named tuple \<open>Repo\<close> with the six fixed fields and,
  for a slow sort key, a seventh field named after the key (\<open>extra\<close>, absent when
  \<open>None\<close>).
\<close>

record Repo =
  html_url :: string
  stargazers_count :: int
  forks_count :: int
  open_issues_count :: int
  updated_at :: string
  pushed_at :: string
  extra :: "int option"

text \<open>
  What a command prints is the sequence of the \<open>click.echo\<close> calls that print, each
  with the message it was given. \<open>Tabulate rows headers\<close> stands for the string
  \<open>tabulate(rows, headers=headers, tablefmt="grid")\<close>. The spinner is left out.
\<close>

datatype pyval = PyStr string | PyInt int | Tabulate "Repo list" "string list"

datatype echo = Echo "pyval list"

definition newline :: string where
  "newline = [CHR 0x0A]"

text \<open>
  \<open>click.echo(message=None, file=None, nl=True, ...)\<close> called with positional
  arguments. With the message alone it prints the message. A second argument is the file
  to write to: every value this program passes there is a string (or a number), which has
  no \<open>write\<close> and no \<open>flush\<close>, so the call prints nothing and raises AttributeError.
\<close>

fun click_echo :: "pyval list \<Rightarrow> exn + echo list" where
  "click_echo [] = Inr [Echo []]"
| "click_echo [msg] = Inr [Echo [msg]]"
| "click_echo (msg # file # rest) = Inl AttributeError"

section \<open>The command \<open>fnm\<close>\<close>

text \<open>
  The body of the \<open>try\<close>: the loop over \<open>enumerate(fork.commits(), 1)\<close>. It returns
  the lines echoed, the new \<open>old_login\<close>, and the exception that left the loop, raised
  by the commit listing or by one of the two calls of \<open>click.echo\<close> (lines 71 and 73),
  which pass the login, respectively the message, where the file goes.
\<close>

fun fnm_commits ::
  "string list \<Rightarrow> fork \<Rightarrow> int \<Rightarrow> commit iter \<Rightarrow> string \<Rightarrow> echo list \<times> string \<times> exn option"
where
  "fnm_commits repo_message fk index Done old_login = ([], old_login, None)"
| "fnm_commits repo_message fk index (Raise e) old_login = ([], old_login, Some e)"
| "fnm_commits repo_message fk index (Yield c it) old_login =
     (if message c \<notin> set repo_message then
        (let new_login = login (owner fk) in
         case (if old_login \<noteq> login (owner fk)
               then (case click_echo [PyStr newline, PyStr new_login, PyStr (fork.html_url fk)] of
                       Inl e \<Rightarrow> Inl e
                     | Inr heading \<Rightarrow> Inr (heading, new_login))
               else Inr ([], old_login)) of
           Inl e \<Rightarrow> ([], old_login, Some e)
         | Inr (heading, old_login') \<Rightarrow>
             (case click_echo [PyInt index, PyStr (message c), PyStr (commit.html_url c)] of
                Inl e \<Rightarrow> (heading, old_login', Some e)
              | Inr line \<Rightarrow>
                  (case fnm_commits repo_message fk (index + 1) it old_login' of
                     (out, l, r) \<Rightarrow> (heading @ line @ out, l, r))))
      else fnm_commits repo_message fk (index + 1) it old_login)"

text \<open>The loop over the forks, with the \<open>except NotFoundError\<close> clause.\<close>

fun fnm_forks :: "string list \<Rightarrow> fork iter \<Rightarrow> string \<Rightarrow> echo list \<times> exn option" where
  "fnm_forks repo_message Done old_login = ([], None)"
| "fnm_forks repo_message (Raise e) old_login = ([], Some e)"
| "fnm_forks repo_message (Yield fk it) old_login =
     (case fnm_commits repo_message fk 1 (fork.commits fk) old_login of
        (out, old_login', None) \<Rightarrow>
          (case fnm_forks repo_message it old_login' of (out', r) \<Rightarrow> (out @ out', r))
      | (out, old_login', Some e) \<Rightarrow>
          (if e = NotFoundError then
             (case fnm_forks repo_message it old_login' of
                (out', r) \<Rightarrow>
                  (out @ Echo [PyStr (''Repository '' @ fork.html_url fk @ '' not found'')] # out',
                   r))
           else (out, Some e)))"

text \<open>
  \<open>fnm\<close> itself: what it echoes and the exception it ends with, if any. Calling
  \<open>.commits()\<close> on a string raises AttributeError.
\<close>

definition fnm :: "RepoCtx \<Rightarrow> echo list \<times> exn option" where
  "fnm repo_ctx =
     (case RepoCtx.repository repo_ctx of
        Str s \<Rightarrow> ([], Some AttributeError)
      | Repository r \<Rightarrow>
          (case to_list (repository.commits r) of
             Inl e \<Rightarrow> ([], Some e)
           | Inr repo_commits \<Rightarrow>
               fnm_forks (map message repo_commits) (RepoCtx.forks repo_ctx) []))"

text \<open>The command line \<open>forkwork URL fnm\<close>: the group callback, then the subcommand.\<close>

definition run_fnm :: "github \<Rightarrow> string \<Rightarrow> echo list \<times> exn option" where
  "run_fnm gh_session path =
     (case cli gh_session path of Inl e \<Rightarrow> ([], Some e) | Inr repo_ctx \<Rightarrow> fnm repo_ctx)"

section \<open>The command \<open>top\<close>\<close>

text \<open>The eight sort flags of \<open>top\<close> and the \<open>flag_value\<close> each stores in \<open>sort\<close>.\<close>

datatype sort_flag =
  Star | Forks | Open_issues | Updated_at | Pushed_at | Watchers_count | Commits | Branches

fun flag_value :: "sort_flag \<Rightarrow> string" where
  "flag_value Star = ''stargazers_count''"
| "flag_value Forks = ''forks_count''"
| "flag_value Open_issues = ''open_issues_count''"
| "flag_value Updated_at = ''updated_at''"
| "flag_value Pushed_at = ''pushed_at''"
| "flag_value Watchers_count = ''watchers''"
| "flag_value Commits = ''commits''"
| "flag_value Branches = ''branches''"

text \<open>\<open>str.capitalize\<close> on ASCII text: the first letter upper case, the rest lower case.\<close>

definition upper :: "char \<Rightarrow> char" where
  "upper c = (if CHR ''a'' \<le> c \<and> c \<le> CHR ''z'' then char_of (of_char c - (32::nat)) else c)"

definition lower :: "char \<Rightarrow> char" where
  "lower c = (if CHR ''A'' \<le> c \<and> c \<le> CHR ''Z'' then char_of (of_char c + (32::nat)) else c)"

definition capitalize :: "string \<Rightarrow> string" where
  "capitalize s = (case s of [] \<Rightarrow> [] | c # cs \<Rightarrow> upper c # map lower cs)"

text \<open>The ordered dictionary \<open>columns\<close> as the source first builds it.\<close>

definition fixed_columns :: "(string \<times> string) list" where
  "fixed_columns =
     [(''html_url'', ''URL''),
      (''stargazers_count'', ''Stars''),
      (''forks_count'', ''Forks''),
      (''open_issues_count'', ''Open Issues''),
      (''updated_at'', ''Last update''),
      (''pushed_at'', ''Pushed At'')]"

text \<open>\<open>columns\<close> and \<open>headers\<close> after the test on \<open>sort\<close> (lines 104 to 114).\<close>

definition columns :: "sort_flag \<Rightarrow> (string \<times> string) list" where
  "columns sort' =
     (if flag_value sort' \<in> {''branches'', ''commits'', ''watchers''}
      then fixed_columns @ [(flag_value sort', capitalize (flag_value sort'))]
      else fixed_columns)"

definition headers :: "sort_flag \<Rightarrow> string list" where
  "headers sort' =
     (if flag_value sort' \<in> {''branches'', ''commits'', ''watchers''}
      then map snd fixed_columns @ [the (map_of (columns sort') (flag_value sort'))]
      else map snd fixed_columns)"

text \<open>The list \<open>def_prop\<close> of one fork, as a row without the seventh field.\<close>

definition def_prop :: "fork \<Rightarrow> Repo" where
  "def_prop fk =
     \<lparr>html_url = fork.html_url fk,
      stargazers_count = fork.stargazers_count fk,
      forks_count = fork.forks_count fk,
      open_issues_count = fork.open_issues_count fk,
      updated_at = fork.updated_at fk,
      pushed_at = fork.pushed_at fk,
      extra = None\<rparr>"

definition not_found_notice :: "fork \<Rightarrow> echo" where
  "not_found_notice fk =
     Echo [PyStr (newline @ ''Repository '' @ fork.html_url fk @ '' not found'')]"

text \<open>
  The body of the loop over the forks: the rows appended to \<open>repos\<close> and the lines
  echoed, or the exception that leaves the loop.
\<close>

definition top_fork :: "github \<Rightarrow> sort_flag \<Rightarrow> fork \<Rightarrow> exn + Repo list \<times> echo list" where
  "top_fork gh_session sort' fk =
     (if flag_value sort' = ''branches'' then
        (case to_list (branches fk) of
           Inr bs \<Rightarrow> Inr ([(def_prop fk)\<lparr>extra := Some (int (length bs))\<rparr>], [])
         | Inl e \<Rightarrow> if e = NotFoundError then Inr ([], [not_found_notice fk]) else Inl e)
      else if flag_value sort' = ''watchers'' then
        (case github.repository gh_session (login (owner fk)) (name fk) of
           Inr repo \<Rightarrow> Inr ([(def_prop fk)\<lparr>extra := Some (subscribers_count repo)\<rparr>], [])
         | Inl e \<Rightarrow> if e = NotFoundError then Inr ([], [not_found_notice fk]) else Inl e)
      else if flag_value sort' = ''commits'' then
        (case to_list (contributors fk) of
           Inr cs \<Rightarrow>
             Inr ([(def_prop fk)\<lparr>extra := Some (sum_list (map contributions_count cs))\<rparr>], [])
         | Inl e \<Rightarrow> if e = NotFoundError then Inr ([], [not_found_notice fk]) else Inl e)
      else Inr ([def_prop fk], []))"

fun top_forks ::
  "github \<Rightarrow> sort_flag \<Rightarrow> fork iter \<Rightarrow> Repo list \<times> echo list \<times> exn option"
where
  "top_forks gh_session sort' Done = ([], [], None)"
| "top_forks gh_session sort' (Raise e) = ([], [], Some e)"
| "top_forks gh_session sort' (Yield fk it) =
     (case top_fork gh_session sort' fk of
        Inl e \<Rightarrow> ([], [], Some e)
      | Inr (rs, out) \<Rightarrow>
          (case top_forks gh_session sort' it of
             (rs', out', r) \<Rightarrow> (rs @ rs', out @ out', r)))"

text \<open>
  \<open>attrgetter(sort)(a) < attrgetter(sort)(b)\<close>, the comparison \<open>sorted\<close> makes between
  two rows; strings compare lexicographically by character code, as in Python. With a slow
  key every row has the seventh field, so an absent one is never compared.
\<close>

fun attr_lt :: "sort_flag \<Rightarrow> Repo \<Rightarrow> Repo \<Rightarrow> bool" where
  "attr_lt Star a b = (stargazers_count a < stargazers_count b)"
| "attr_lt Forks a b = (forks_count a < forks_count b)"
| "attr_lt Open_issues a b = (open_issues_count a < open_issues_count b)"
| "attr_lt Updated_at a b = (updated_at a < updated_at b)"
| "attr_lt Pushed_at a b = (pushed_at a < pushed_at b)"
| "attr_lt Watchers_count a b = (extra a < extra b)"
| "attr_lt Commits a b = (extra a < extra b)"
| "attr_lt Branches a b = (extra a < extra b)"

text \<open>
  Python's \<open>sorted\<close>: a stable sort that compares with \<open><\<close> only. With
  \<open>reverse=True\<close> the list is reversed, sorted and reversed again, which is how
  equal elements keep their order.
\<close>

fun insort_lt :: "('a \<Rightarrow> 'a \<Rightarrow> bool) \<Rightarrow> 'a \<Rightarrow> 'a list \<Rightarrow> 'a list" where
  "insort_lt lt x [] = [x]"
| "insort_lt lt x (y # ys) = (if lt y x then y # insort_lt lt x ys else x # y # ys)"

definition sorted_py :: "('a \<Rightarrow> 'a \<Rightarrow> bool) \<Rightarrow> bool \<Rightarrow> 'a list \<Rightarrow> 'a list" where
  "sorted_py lt reverse xs =
     (if reverse then rev (foldr (insort_lt lt) (rev xs) []) else foldr (insort_lt lt) xs [])"

text \<open>The slice \<open>xs[:n]\<close>; a negative \<open>n\<close> counts from the end.\<close>

definition slice_to :: "int \<Rightarrow> 'a list \<Rightarrow> 'a list" where
  "slice_to n xs = (if 0 \<le> n then take (nat n) xs else take (nat (int (length xs) + n)) xs)"

text \<open>
  The loop that humanizes the dates. \<open>human\<close> is what the date library makes of one
  timestamp, the clock included: the text of \<open>diff_for_humans\<close>, or the exception of
  \<open>parse\<close>.
\<close>

fun humanize_dates :: "(string \<Rightarrow> exn + string) \<Rightarrow> Repo list \<Rightarrow> exn + Repo list" where
  "humanize_dates human [] = Inr []"
| "humanize_dates human (r # rs) =
     (case human (updated_at r) of
        Inl e \<Rightarrow> Inl e
      | Inr human_updated_at \<Rightarrow>
          (case human (pushed_at r) of
             Inl e \<Rightarrow> Inl e
           | Inr human_pushed_at \<Rightarrow>
               (case humanize_dates human rs of
                  Inl e \<Rightarrow> Inl e
                | Inr out \<Rightarrow>
                    Inr (r\<lparr>updated_at := human_updated_at, pushed_at := human_pushed_at\<rparr> # out))))"

text \<open>
  The lists \<open>repos\<close> and \<open>sorted_forks\<close> of the source, and the command itself (named
  \<open>top_cmd\<close>, \<open>top\<close> being the greatest element of an order in HOL; likewise the
  parameter \<open>sort\<close> is written \<open>sort'\<close>).
\<close>

definition repos :: "RepoCtx \<Rightarrow> sort_flag \<Rightarrow> Repo list" where
  "repos repo_ctx sort' = fst (top_forks (gh repo_ctx) sort' (RepoCtx.forks repo_ctx))"

definition sorted_forks :: "RepoCtx \<Rightarrow> sort_flag \<Rightarrow> Repo list" where
  "sorted_forks repo_ctx sort' = sorted_py (attr_lt sort') True (repos repo_ctx sort')"

definition top_cmd ::
  "(string \<Rightarrow> exn + string) \<Rightarrow> RepoCtx \<Rightarrow> sort_flag \<Rightarrow> int \<Rightarrow> echo list \<times> exn option"
where
  "top_cmd human repo_ctx sort' rows =
     (case top_forks (gh repo_ctx) sort' (RepoCtx.forks repo_ctx) of
        (rs, out, Some e) \<Rightarrow> (out, Some e)
      | (rs, out, None) \<Rightarrow>
          (case humanize_dates human (slice_to rows (sorted_forks repo_ctx sort')) of
             Inl e \<Rightarrow> (out, Some e)
           | Inr humanize_dates_forks \<Rightarrow>
               (out @ [Echo [Tabulate humanize_dates_forks (headers sort')]], None)))"

text \<open>The options as click fills them in: \<open>--rows\<close> defaults to 10, the flag to \<open>--star\<close>.\<close>

definition top_options ::
  "(string \<Rightarrow> exn + string) \<Rightarrow> RepoCtx \<Rightarrow> sort_flag option \<Rightarrow> int option
    \<Rightarrow> echo list \<times> exn option"
where
  "top_options human repo_ctx flag rows_opt =
     top_cmd human repo_ctx
       (case flag of None \<Rightarrow> Star | Some f \<Rightarrow> f)
       (case rows_opt of None \<Rightarrow> 10 | Some n \<Rightarrow> n)"

section \<open>Notions used to state the properties\<close>

text \<open>
  \<open>attrgetter(sort)(a) == attrgetter(sort)(b)\<close>: two rows have equal values of the
  chosen sort field.
\<close>

fun attr_eq :: "sort_flag \<Rightarrow> Repo \<Rightarrow> Repo \<Rightarrow> bool" where
  "attr_eq Star a b = (stargazers_count a = stargazers_count b)"
| "attr_eq Forks a b = (forks_count a = forks_count b)"
| "attr_eq Open_issues a b = (open_issues_count a = open_issues_count b)"
| "attr_eq Updated_at a b = (updated_at a = updated_at b)"
| "attr_eq Pushed_at a b = (pushed_at a = pushed_at b)"
| "attr_eq Watchers_count a b = (extra a = extra b)"
| "attr_eq Commits a b = (extra a = extra b)"
| "attr_eq Branches a b = (extra a = extra b)"

text \<open>The rows and the headers of the table a command has echoed.\<close>

fun table_rows :: "echo \<Rightarrow> Repo list" where
  "table_rows (Echo [Tabulate rs hs]) = rs"
| "table_rows e = []"

fun table_headers :: "echo \<Rightarrow> string list" where
  "table_headers (Echo [Tabulate rs hs]) = hs"
| "table_headers e = []"

definition rendered :: "echo list \<Rightarrow> Repo list" where
  "rendered out = concat (map table_rows out)"

definition rendered_headers :: "echo list \<Rightarrow> string list" where
  "rendered_headers out = concat (map table_headers out)"

text \<open>The row a fork contributes to \<open>repos\<close>, if the loop body appends one.\<close>

definition row_of :: "github \<Rightarrow> sort_flag \<Rightarrow> fork \<Rightarrow> Repo option" where
  "row_of gh_session sort' fk =
     (case top_fork gh_session sort' fk of Inr ([r], out) \<Rightarrow> Some r | _ \<Rightarrow> None)"

text \<open>
  The exception, if any, of the secondary call \<open>top\<close> makes for one fork, and the
  exception a loop over the forks ends with when the only exception recovered is the
  NotFoundError of one fork's own call: \<open>call fk\<close> is the exception that call raises.
\<close>

definition secondary :: "github \<Rightarrow> sort_flag \<Rightarrow> fork \<Rightarrow> exn option" where
  "secondary gh_session sort' fk =
     (case sort' of
        Branches \<Rightarrow> iter_end (branches fk)
      | Watchers_count \<Rightarrow>
          (case github.repository gh_session (login (owner fk)) (name fk) of
             Inl e \<Rightarrow> Some e | Inr r \<Rightarrow> None)
      | Commits \<Rightarrow> iter_end (contributors fk)
      | _ \<Rightarrow> None)"

text \<open>
  The exception the body of the \<open>try\<close> of \<open>fnm\<close> raises for one fork, going by the
  source: the AttributeError of \<open>click.echo\<close> at the first commit whose message is not
  an upstream message, else what the commit listing raises.
\<close>

fun try_raises :: "string list \<Rightarrow> commit iter \<Rightarrow> exn option" where
  "try_raises upstream Done = None"
| "try_raises upstream (Raise e) = Some e"
| "try_raises upstream (Yield c it) =
     (if message c \<notin> set upstream then Some AttributeError else try_raises upstream it)"

fun uncaught :: "('a \<Rightarrow> exn option) \<Rightarrow> 'a iter \<Rightarrow> exn option" where
  "uncaught call Done = None"
| "uncaught call (Raise e) = Some e"
| "uncaught call (Yield x it) =
     (case call x of
        None \<Rightarrow> uncaught call it
      | Some e \<Rightarrow> if e = NotFoundError then uncaught call it else Some e)"

section \<open>Example data\<close>

definition ex_commit_init :: commit where
  "ex_commit_init =
     \<lparr>sha = ''c0'', message = ''init'', commit.html_url = ''https://github.com/octo/repo/commit/c0''\<rparr>"

definition ex_commit_fix1 :: commit where
  "ex_commit_fix1 =
     \<lparr>sha = ''a1'', message = ''fix'', commit.html_url = ''https://github.com/ann/repo/commit/a1''\<rparr>"

definition ex_commit_fix2 :: commit where
  "ex_commit_fix2 =
     \<lparr>sha = ''a2'', message = ''fix'', commit.html_url = ''https://github.com/ann/repo/commit/a2''\<rparr>"

definition ex_fork_ann :: fork where
  "ex_fork_ann =
     \<lparr>fork.html_url = ''https://github.com/ann/repo'', owner = \<lparr>login = ''ann''\<rparr>, name = ''repo'',
      fork.stargazers_count = 3, fork.forks_count = 1, fork.open_issues_count = 0,
      fork.updated_at = ''2020-03-01T10:00:00Z'', fork.pushed_at = ''2020-02-01T10:00:00Z'',
      fork.commits = Yield ex_commit_fix1 (Yield ex_commit_fix2 (Yield ex_commit_init Done)),
      branches = Yield ''main'' (Yield ''dev'' Done),
      contributors = Yield \<lparr>contributions_count = 3\<rparr> Done\<rparr>"

definition ex_fork_gone :: fork where
  "ex_fork_gone =
     \<lparr>fork.html_url = ''https://github.com/gone/repo'', owner = \<lparr>login = ''gone''\<rparr>, name = ''repo'',
      fork.stargazers_count = 3, fork.forks_count = 0, fork.open_issues_count = 0,
      fork.updated_at = ''2019-01-01T10:00:00Z'', fork.pushed_at = ''2019-01-01T10:00:00Z'',
      fork.commits = Raise NotFoundError,
      branches = Raise NotFoundError,
      contributors = Raise NotFoundError\<rparr>"

definition ex_fork_bob :: fork where
  "ex_fork_bob =
     \<lparr>fork.html_url = ''https://github.com/bob/repo'', owner = \<lparr>login = ''bob''\<rparr>, name = ''repo'',
      fork.stargazers_count = 5, fork.forks_count = 2, fork.open_issues_count = 1,
      fork.updated_at = ''2021-03-01T10:00:00Z'', fork.pushed_at = ''2021-02-01T10:00:00Z'',
      fork.commits = Yield ex_commit_init Done,
      branches = Yield ''main'' Done,
      contributors = Yield \<lparr>contributions_count = 1\<rparr> Done\<rparr>"

definition ex_upstream :: repository where
  "ex_upstream =
     \<lparr>repository.commits = Yield ex_commit_init Done,
      forks = Yield ex_fork_ann (Yield ex_fork_gone (Yield ex_fork_bob Done)),
      subscribers_count = 7\<rparr>"

definition ex_session :: github where
  "ex_session =
     \<lparr>github.repository =
        (\<lambda>l n. if l = ''octo'' \<and> n = ''repo'' then Inr ex_upstream
               else if l = ''ann'' \<and> n = ''repo''
                 then Inr \<lparr>repository.commits = Done, forks = Done, subscribers_count = 2\<rparr>
               else if l = ''bob'' \<and> n = ''repo''
                 then Inr \<lparr>repository.commits = Done, forks = Done, subscribers_count = 4\<rparr>
               else Inl NotFoundError)\<rparr>"

text \<open>A context as \<open>fnm\<close> expects it, with the repository object in its first field.\<close>

definition ex_ctx :: RepoCtx where
  "ex_ctx =
     \<lparr>repository = Repository ex_upstream, forks = repository.forks ex_upstream, gh = ex_session\<rparr>"

definition ex_human :: "string \<Rightarrow> exn + string" where
  "ex_human s = (if s = [] then Inl ParserError else Inr (''since '' @ take 4 s))"

text \<open>Tables the example context gives rise to.\<close>

definition ex_rows :: "Repo list" where
  "ex_rows =
     [\<lparr>Repo.html_url = ''https://github.com/bob/repo'', stargazers_count = 5, forks_count = 2,
       open_issues_count = 1, updated_at = ''since 2021'', pushed_at = ''since 2021'',
       extra = None\<rparr>,
      \<lparr>Repo.html_url = ''https://github.com/ann/repo'', stargazers_count = 3, forks_count = 1,
       open_issues_count = 0, updated_at = ''since 2020'', pushed_at = ''since 2020'',
       extra = None\<rparr>]"

definition ex_rows_branches :: "Repo list" where
  "ex_rows_branches =
     [\<lparr>Repo.html_url = ''https://github.com/ann/repo'', stargazers_count = 3, forks_count = 1,
       open_issues_count = 0, updated_at = ''since 2020'', pushed_at = ''since 2020'',
       extra = Some 2\<rparr>,
      \<lparr>Repo.html_url = ''https://github.com/bob/repo'', stargazers_count = 5, forks_count = 2,
       open_issues_count = 1, updated_at = ''since 2021'', pushed_at = ''since 2021'',
       extra = Some 1\<rparr>]"

section \<open>Iterators\<close>

lemma to_list_items: "to_list it = Inr xs \<Longrightarrow> items it = xs \<and> iter_end it = None"
  by (induction it arbitrary: xs) (auto split: sum.splits)

lemma to_list_end: "to_list it = Inl e \<Longrightarrow> iter_end it = Some e"
  by (induction it) (auto split: sum.splits)

lemma to_list_eq:
  "to_list it = (case iter_end it of None \<Rightarrow> Inr (items it) | Some e \<Rightarrow> Inl e)"
  by (induction it) (auto split: option.splits)

lemma items_map_iter: "items (map_iter f it) = map f (items it)"
  by (induction it) simp_all

lemma iter_end_map_iter: "iter_end (map_iter f it) = iter_end it"
  by (induction it) simp_all

section \<open>Lists\<close>

lemma prefix_filter: "prefix xs ys \<Longrightarrow> prefix (filter P xs) (filter P ys)"
  by (auto simp: prefix_def)

lemma list_all2_set1: "list_all2 R hs rs \<Longrightarrow> h \<in> set hs \<Longrightarrow> \<exists>r\<in>set rs. R h r"
  by (induction rule: list_all2_induct) auto

lemma sorted_wrt_list_all2:
  assumes "list_all2 R hs rs" and "sorted_wrt P rs"
    and "\<And>h r h' r'. R h r \<Longrightarrow> R h' r' \<Longrightarrow> P r r' \<Longrightarrow> Q h h'"
  shows "sorted_wrt Q hs"
proof -
  have "Q (hs ! i) (hs ! j)" if "i < j" "j < length hs" for i j
  proof -
    from assms(1) that have "R (hs ! i) (rs ! i)" "R (hs ! j) (rs ! j)" "j < length rs"
      by (auto simp: list_all2_conv_all_nth)
    moreover from assms(2) that \<open>j < length rs\<close> have "P (rs ! i) (rs ! j)"
      by (simp add: sorted_wrt_iff_nth_less)
    ultimately show ?thesis using assms(3) by blast
  qed
  then show ?thesis by (simp add: sorted_wrt_iff_nth_less)
qed

section \<open>Python's \<open>sorted\<close> and slices\<close>

lemma set_insort_lt: "set (insort_lt lt x ys) = insert x (set ys)"
  by (induction ys) auto

lemma length_insort_lt: "length (insort_lt lt x ys) = Suc (length ys)"
  by (induction ys) auto

lemma length_isort: "length (foldr (insort_lt lt) xs []) = length xs"
  by (induction xs) (auto simp: length_insort_lt)

lemma set_isort: "set (foldr (insort_lt lt) xs []) = set xs"
  by (induction xs) (auto simp: set_insort_lt)

lemma sorted_insort_lt:
  assumes asym: "\<And>a b. lt a b \<Longrightarrow> \<not> lt b a"
    and cotrans: "\<And>a b c. lt a b \<Longrightarrow> lt a c \<or> lt c b"
  shows "sorted_wrt (\<lambda>a b. \<not> lt b a) ys \<Longrightarrow> sorted_wrt (\<lambda>a b. \<not> lt b a) (insort_lt lt x ys)"
proof (induction ys)
  case Nil
  then show ?case by simp
next
  case (Cons y ys)
  show ?case
  proof (cases "lt y x")
    case True
    with Cons asym show ?thesis by (auto simp: set_insort_lt)
  next
    case False
    have "\<not> lt w x" if "w \<in> set ys" for w
    proof
      assume "lt w x"
      then have "lt w y \<or> lt y x" by (rule cotrans)
      with False Cons.prems that show False by auto
    qed
    with False Cons.prems show ?thesis by auto
  qed
qed

lemma sorted_isort:
  assumes "\<And>a b. lt a b \<Longrightarrow> \<not> lt b a" and "\<And>a b c. lt a b \<Longrightarrow> lt a c \<or> lt c b"
  shows "sorted_wrt (\<lambda>a b. \<not> lt b a) (foldr (insort_lt lt) xs [])"
proof (induction xs)
  case Nil
  then show ?case by simp
next
  case (Cons x xs)
  then show ?case
    using sorted_insort_lt [where lt = lt and x = x and ys = "foldr (insort_lt lt) xs []", OF assms]
    by simp
qed

lemma filter_insort_lt:
  assumes cotrans: "\<And>a b c. lt a b \<Longrightarrow> lt a c \<or> lt c b"
  shows "filter (\<lambda>y. \<not> lt y z \<and> \<not> lt z y) (insort_lt lt x ys) =
           (if \<not> lt x z \<and> \<not> lt z x then x # filter (\<lambda>y. \<not> lt y z \<and> \<not> lt z y) ys
            else filter (\<lambda>y. \<not> lt y z \<and> \<not> lt z y) ys)"
proof (induction ys)
  case Nil
  then show ?case by simp
next
  case (Cons y ys)
  have "\<not> lt y x" if "\<not> lt y z" "\<not> lt z x"
    using cotrans [of y x z] that by blast
  with Cons show ?case by auto
qed

lemma filter_isort:
  assumes "\<And>a b c. lt a b \<Longrightarrow> lt a c \<or> lt c b"
  shows "filter (\<lambda>y. \<not> lt y z \<and> \<not> lt z y) (foldr (insort_lt lt) xs []) =
           filter (\<lambda>y. \<not> lt y z \<and> \<not> lt z y) xs"
proof (induction xs)
  case Nil
  then show ?case by simp
next
  case (Cons x xs)
  have "filter (\<lambda>y. \<not> lt y z \<and> \<not> lt z y) (insort_lt lt x (foldr (insort_lt lt) xs [])) =
          (if \<not> lt x z \<and> \<not> lt z x
           then x # filter (\<lambda>y. \<not> lt y z \<and> \<not> lt z y) (foldr (insort_lt lt) xs [])
           else filter (\<lambda>y. \<not> lt y z \<and> \<not> lt z y) (foldr (insort_lt lt) xs []))"
    by (rule filter_insort_lt [where lt = lt, OF assms])
  with Cons show ?case by simp
qed

lemma length_sorted_py: "length (sorted_py lt r xs) = length xs"
  by (simp add: sorted_py_def length_isort)

lemma set_sorted_py: "set (sorted_py lt r xs) = set xs"
  by (simp add: sorted_py_def set_isort)

lemma sorted_py_reverse_descending:
  assumes "\<And>a b. lt a b \<Longrightarrow> \<not> lt b a" and "\<And>a b c. lt a b \<Longrightarrow> lt a c \<or> lt c b"
  shows "sorted_wrt (\<lambda>a b. \<not> lt a b) (sorted_py lt True xs)"
  using sorted_isort [where lt = lt and xs = "rev xs", OF assms] by (simp add: sorted_py_def sorted_wrt_rev)

lemma sorted_py_reverse_stable:
  assumes "\<And>a b c. lt a b \<Longrightarrow> lt a c \<or> lt c b"
  shows "filter (\<lambda>y. \<not> lt y z \<and> \<not> lt z y) (sorted_py lt True xs) =
           filter (\<lambda>y. \<not> lt y z \<and> \<not> lt z y) xs"
  using filter_isort [where lt = lt and z = z and xs = "rev xs", OF assms] by (simp add: sorted_py_def rev_filter [symmetric])

lemma attr_lt_asym: "attr_lt s a b \<Longrightarrow> \<not> attr_lt s b a"
  by (cases s) auto

lemma attr_lt_cotrans: "attr_lt s a b \<Longrightarrow> attr_lt s a c \<or> attr_lt s c b"
  by (cases s) auto

lemma attr_eq_iff: "attr_eq s a b = (\<not> attr_lt s b a \<and> \<not> attr_lt s a b)"
  by (cases s) auto

lemma attr_lt_humanized:
  assumes "s \<noteq> Updated_at" and "s \<noteq> Pushed_at"
  shows "attr_lt s (a\<lparr>updated_at := u, pushed_at := p\<rparr>) (b\<lparr>updated_at := u', pushed_at := p'\<rparr>) =
           attr_lt s a b"
  using assms by (cases s) simp_all

lemma length_slice_to:
  "length (slice_to n xs) =
     (if 0 \<le> n then min (nat n) (length xs) else length xs - nat (- n))"
  by (auto simp: slice_to_def)

lemma slice_to_prefix: "prefix (slice_to n xs) xs"
  by (simp add: slice_to_def take_is_prefix)

lemma set_slice_to: "set (slice_to n xs) \<subseteq> set xs"
  by (auto simp: slice_to_def dest: in_set_takeD)

lemma sorted_wrt_slice_to: "sorted_wrt P xs \<Longrightarrow> sorted_wrt P (slice_to n xs)"
  by (simp add: slice_to_def)

section \<open>The loops of \<open>fnm\<close>\<close>

lemma click_echo_file: "click_echo [a, b, c] = Inl AttributeError"
  by simp

lemma fnm_commits_out: "fst (fnm_commits rm fk i it old) = []"
  by (induction it arbitrary: i old) (simp_all add: Let_def)

lemma fnm_commits_login: "fst (snd (fnm_commits rm fk i it old)) = old"
  by (induction it arbitrary: i old) (simp_all add: Let_def)

lemma fnm_commits_end: "snd (snd (fnm_commits rm fk i it old)) = try_raises rm it"
  by (induction it arbitrary: i old) (simp_all add: Let_def)

lemma fnm_commits_eq: "fnm_commits rm fk i it old = ([], old, try_raises rm it)"
  using fnm_commits_out [of rm fk i it old] fnm_commits_login [of rm fk i it old]
    fnm_commits_end [of rm fk i it old]
  by (cases "fnm_commits rm fk i it old") simp

lemma fnm_forks_end:
  "snd (fnm_forks rm fs old) = uncaught (\<lambda>fk. try_raises rm (fork.commits fk)) fs"
  by (induction fs arbitrary: old)
    (auto simp: fnm_commits_eq case_prod_beta split: option.splits)

lemma fnm_forks_out:
  "e \<in> set (fst (fnm_forks rm fs old)) \<Longrightarrow>
     \<exists>fk\<in>set (items fs). e = Echo [PyStr (''Repository '' @ fork.html_url fk @ '' not found'')]"
  by (induction fs arbitrary: old)
    (auto simp: fnm_commits_eq case_prod_beta split: option.splits if_splits)

lemma fnm_out:
  assumes that: "e \<in> set (fst (fnm repo_ctx))"
  shows "\<exists>fk\<in>set (items (RepoCtx.forks repo_ctx)).
           e = Echo [PyStr (''Repository '' @ fork.html_url fk @ '' not found'')]"
proof (cases "RepoCtx.repository repo_ctx")
  case (Str n)
  with that show ?thesis by (simp add: fnm_def)
next
  case (Repository r)
  show ?thesis
  proof (cases "to_list (repository.commits r)")
    case (Inl x)
    with that Repository show ?thesis by (simp add: fnm_def)
  next
    case (Inr us)
    with that Repository
    have "e \<in> set (fst (fnm_forks (map message us) (RepoCtx.forks repo_ctx) []))"
      by (simp add: fnm_def)
    then show ?thesis by (rule fnm_forks_out)
  qed
qed

lemma fnm_forks_report:
  assumes "message c \<notin> set rm"
  shows "fnm_forks rm (Yield (fk\<lparr>fork.commits := Yield c it'\<rparr>) it) old = ([], Some AttributeError)"
  using assms by (simp add: fnm_commits_eq)

lemma fnm_forks_gone:
  assumes "fork.commits fk = Raise NotFoundError"
  shows "fnm_forks rm (Yield fk it) old =
           (Echo [PyStr (''Repository '' @ fork.html_url fk @ '' not found'')] #
              fst (fnm_forks rm it old),
            snd (fnm_forks rm it old))"
  using assms by (simp add: case_prod_beta)

lemma fnm_on_name: "RepoCtx.repository repo_ctx = Str s \<Longrightarrow> fnm repo_ctx = ([], Some AttributeError)"
  by (simp add: fnm_def)

lemma cli_repository_is_name:
  "cli g p = Inr repo_ctx \<Longrightarrow> \<exists>s. RepoCtx.repository repo_ctx = Str s"
  by (auto simp: cli_def split: list.splits sum.splits)

lemma run_fnm_raises: "fst (run_fnm g p) = [] \<and> snd (run_fnm g p) \<noteq> None"
  by (auto simp: run_fnm_def cli_def fnm_def split: sum.splits list.splits)

section \<open>The loops of \<open>top\<close>\<close>

lemma humanize_dates_rows:
  "humanize_dates human rs = Inr out \<Longrightarrow>
     list_all2 (\<lambda>h r. \<exists>u p. human (updated_at r) = Inr u \<and> human (pushed_at r) = Inr p \<and>
        h = r\<lparr>updated_at := u, pushed_at := p\<rparr>) out rs"
  by (induction rs arbitrary: out) (auto split: sum.splits)

lemma top_fork_fast:
  "flag_value s \<notin> {''branches'', ''commits'', ''watchers''} \<Longrightarrow>
     top_fork g s fk = Inr ([def_prop fk], [])"
  by (simp add: top_fork_def)

lemma top_forks_fast:
  "flag_value s \<notin> {''branches'', ''commits'', ''watchers''} \<Longrightarrow>
     top_forks g s fs = (map def_prop (items fs), [], iter_end fs)"
  by (induction fs) (simp_all add: top_fork_fast del: insert_iff)

lemma top_fork_notice:
  "top_fork g s fk = Inr (rs, out) \<Longrightarrow> e \<in> set out \<Longrightarrow> e = not_found_notice fk"
  by (auto simp: top_fork_def split: if_splits sum.splits)

lemma top_fork_extra:
  "top_fork g s fk = Inr (rs, out) \<Longrightarrow> r \<in> set rs \<Longrightarrow>
     (extra r \<noteq> None) = (s \<in> {Watchers_count, Commits, Branches})"
  by (cases s) (auto simp: top_fork_def def_prop_def split: if_splits sum.splits)

lemma top_forks_notices:
  "e \<in> set (fst (snd (top_forks g s fs))) \<Longrightarrow> table_rows e = [] \<and> table_headers e = []"
proof (induction fs)
  case (Yield fk it)
  then show ?case
    by (auto simp: case_prod_beta not_found_notice_def split: sum.splits dest!: top_fork_notice)
qed simp_all

lemma top_forks_extra:
  "r \<in> set (fst (top_forks g s fs)) \<Longrightarrow>
     (extra r \<noteq> None) = (s \<in> {Watchers_count, Commits, Branches})"
proof (induction fs)
  case (Yield fk it)
  then show ?case
    by (auto simp: case_prod_beta split: sum.splits dest: top_fork_extra simp del: insert_iff)
qed simp_all

lemma top_fork_end:
  "top_fork g s fk =
     (case secondary g s fk of
        None \<Rightarrow> Inr ([the (row_of g s fk)], [])
      | Some e \<Rightarrow> if e = NotFoundError then Inr ([], [not_found_notice fk]) else Inl e)"
  by (cases s) (auto simp: top_fork_def secondary_def row_of_def to_list_eq split: option.splits sum.splits)

lemma top_fork_rows:
  "top_fork g s fk = Inr (rs, out) \<Longrightarrow> rs = (case row_of g s fk of None \<Rightarrow> [] | Some r \<Rightarrow> [r])"
  by (auto simp: row_of_def top_fork_def split: if_splits sum.splits)

lemma top_forks_end: "snd (snd (top_forks g s fs)) = uncaught (secondary g s) fs"
  by (induction fs) (auto simp: top_fork_end case_prod_beta split: option.splits)

lemma top_forks_rows:
  "snd (snd (top_forks g s fs)) = None \<Longrightarrow>
     fst (top_forks g s fs) = List.map_filter (row_of g s) (items fs)"
proof (induction fs)
  case (Yield fk it)
  then show ?case
    by (cases "top_fork g s fk")
      (auto simp: case_prod_beta List.map_filter_simps split: option.splits dest!: top_fork_rows)
qed (simp_all add: List.map_filter_simps)

lemma top_forks_not_found:
  assumes "secondary g s fk = Some NotFoundError"
  shows "top_forks g s (Yield fk it) =
           (fst (top_forks g s it),
            not_found_notice fk # fst (snd (top_forks g s it)),
            snd (snd (top_forks g s it)))"
  using assms by (simp add: top_fork_end case_prod_beta)

lemma uncaught_None:
  "(uncaught call it = None) =
     (iter_end it = None \<and> (\<forall>x\<in>set (items it). call x = None \<or> call x = Some NotFoundError))"
  by (induction it) (auto split: option.splits)

lemma rendered_table [simp]: "rendered [Echo [Tabulate rs hs]] = rs"
  by (simp add: rendered_def)

lemma rendered_headers_table [simp]: "rendered_headers [Echo [Tabulate rs hs]] = hs"
  by (simp add: rendered_headers_def)

lemma rendered_notices:
  "rendered (fst (snd (top_forks g s fs))) = [] \<and> rendered_headers (fst (snd (top_forks g s fs))) = []"
  using top_forks_notices [of _ g s fs] by (auto simp: rendered_def rendered_headers_def)

lemma top_cmd_completes:
  assumes "top_cmd human repo_ctx s rows = (out, None)"
  shows "humanize_dates human (slice_to rows (sorted_forks repo_ctx s)) = Inr (rendered out) \<and>
         rendered_headers out = headers s \<and>
         snd (snd (top_forks (gh repo_ctx) s (RepoCtx.forks repo_ctx))) = None"
proof -
  obtain rs ns r where t: "top_forks (gh repo_ctx) s (RepoCtx.forks repo_ctx) = (rs, ns, r)"
    by (cases "top_forks (gh repo_ctx) s (RepoCtx.forks repo_ctx)") auto
  with assms have r: "r = None"
    by (auto simp: top_cmd_def split: option.splits)
  from assms t r obtain hs where
    h: "humanize_dates human (slice_to rows (sorted_forks repo_ctx s)) = Inr hs"
    and out: "out = ns @ [Echo [Tabulate hs (headers s)]]"
    by (auto simp: top_cmd_def split: sum.splits)
  have "rendered ns = []" "rendered_headers ns = []"
    using rendered_notices [of "gh repo_ctx" s "RepoCtx.forks repo_ctx"] t by simp_all
  then have "rendered out = hs" "rendered_headers out = headers s"
    by (simp_all add: out rendered_def rendered_headers_def)
  with h t r show ?thesis by simp
qed

lemma ranked_subset: "set (slice_to rows (sorted_forks repo_ctx s)) \<subseteq> set (repos repo_ctx s)"
  using set_slice_to [of rows "sorted_forks repo_ctx s"]
  by (simp add: sorted_forks_def set_sorted_py)

lemma headers_eq:
  "headers s =
     [''URL'', ''Stars'', ''Forks'', ''Open Issues'', ''Last update'', ''Pushed At''] @
     (if s = Watchers_count then [''Watchers'']
      else if s = Commits then [''Commits'']
      else if s = Branches then [''Branches''] else [])"
  by (cases s; hypsubst; code_simp)

lemma columns_eq:
  "map fst (columns s) =
     [''html_url'', ''stargazers_count'', ''forks_count'', ''open_issues_count'', ''updated_at'',
      ''pushed_at''] @
     (if s \<in> {Watchers_count, Commits, Branches} then [flag_value s] else [])"
  by (cases s) (simp_all add: columns_def fixed_columns_def)

section \<open>The example, evaluated\<close>

lemma ex_cli:
  "cli ex_session ''/octo/repo'' =
     Inr \<lparr>repository = Str ''repo'', forks = repository.forks ex_upstream, gh = ex_session\<rparr>"
  by (simp add: cli_def ex_session_def)

lemma ex_fnm: "fnm ex_ctx = ([], Some AttributeError)"
  by (simp add: fnm_def ex_ctx_def ex_upstream_def fnm_commits_eq)
    (simp add: ex_fork_ann_def ex_commit_init_def ex_commit_fix1_def)

lemma ex_fnm_quiet:
  "fnm_forks [''init''] (Yield ex_fork_gone (Yield ex_fork_bob Done)) [] =
     ([Echo [PyStr ''Repository https://github.com/gone/repo not found'']], None)"
  by (simp add: fnm_commits_eq) (simp add: ex_fork_gone_def ex_fork_bob_def ex_commit_init_def)

lemma ex_forks: "RepoCtx.forks ex_ctx = Yield ex_fork_ann (Yield ex_fork_gone (Yield ex_fork_bob Done))"
  by (simp add: ex_ctx_def ex_upstream_def)

lemma ex_repos_star:
  "repos ex_ctx Star = [def_prop ex_fork_ann, def_prop ex_fork_gone, def_prop ex_fork_bob]"
  by (simp add: repos_def ex_forks top_fork_def)

lemma ex_sorted_star:
  "sorted_forks ex_ctx Star = [def_prop ex_fork_bob, def_prop ex_fork_ann, def_prop ex_fork_gone]"
  by (simp add: sorted_forks_def ex_repos_star sorted_py_def def_prop_def ex_fork_ann_def
      ex_fork_gone_def ex_fork_bob_def)

lemma ex_top_forks_star:
  "top_forks (gh ex_ctx) Star (RepoCtx.forks ex_ctx) =
     ([def_prop ex_fork_ann, def_prop ex_fork_gone, def_prop ex_fork_bob], [], None)"
  by (simp add: ex_forks top_fork_def)

lemma ex_humanized:
  "humanize_dates ex_human [def_prop ex_fork_bob, def_prop ex_fork_ann] = Inr ex_rows"
  by (simp add: ex_human_def def_prop_def ex_fork_ann_def ex_fork_bob_def ex_rows_def)

lemma ex_slice_2:
  "slice_to 2 (sorted_forks ex_ctx Star) = [def_prop ex_fork_bob, def_prop ex_fork_ann]"
  by (simp add: ex_sorted_star slice_to_def)

lemma ex_slice_neg:
  "slice_to (- 1) (sorted_forks ex_ctx Star) = [def_prop ex_fork_bob, def_prop ex_fork_ann]"
  by (simp add: ex_sorted_star slice_to_def)

lemma ex_top_star_2:
  "top_cmd ex_human ex_ctx Star 2 = ([Echo [Tabulate ex_rows (headers Star)]], None)"
  by (simp add: top_cmd_def ex_top_forks_star ex_slice_2 ex_humanized del: humanize_dates.simps)

lemma ex_top_star_neg:
  "top_cmd ex_human ex_ctx Star (- 1) = ([Echo [Tabulate ex_rows (headers Star)]], None)"
  by (simp add: top_cmd_def ex_top_forks_star ex_slice_neg ex_humanized del: humanize_dates.simps)

lemma ex_branches_ann:
  "top_fork g Branches ex_fork_ann = Inr ([(def_prop ex_fork_ann)\<lparr>extra := Some 2\<rparr>], [])"
  by (simp add: top_fork_def) (simp add: ex_fork_ann_def)

lemma ex_branches_gone:
  "top_fork g Branches ex_fork_gone = Inr ([], [not_found_notice ex_fork_gone])"
  by (simp add: top_fork_def) (simp add: ex_fork_gone_def)

lemma ex_branches_bob:
  "top_fork g Branches ex_fork_bob = Inr ([(def_prop ex_fork_bob)\<lparr>extra := Some 1\<rparr>], [])"
  by (simp add: top_fork_def) (simp add: ex_fork_bob_def)

lemma ex_forks_branches:
  "top_forks (gh ex_ctx) Branches (RepoCtx.forks ex_ctx) =
     ([(def_prop ex_fork_ann)\<lparr>extra := Some 2\<rparr>, (def_prop ex_fork_bob)\<lparr>extra := Some 1\<rparr>],
      [not_found_notice ex_fork_gone], None)"
  by (simp add: ex_forks ex_branches_ann ex_branches_gone ex_branches_bob)

lemma ex_sorted_branches:
  "sorted_forks ex_ctx Branches =
     [(def_prop ex_fork_ann)\<lparr>extra := Some 2\<rparr>, (def_prop ex_fork_bob)\<lparr>extra := Some 1\<rparr>]"
  using ex_forks_branches by (simp add: sorted_forks_def repos_def sorted_py_def)

lemma ex_humanized_branches:
  "humanize_dates ex_human
     [(def_prop ex_fork_ann)\<lparr>extra := Some 2\<rparr>, (def_prop ex_fork_bob)\<lparr>extra := Some 1\<rparr>] =
   Inr ex_rows_branches"
  by (simp add: ex_human_def def_prop_def ex_fork_ann_def ex_fork_bob_def ex_rows_branches_def)

lemma ex_top_branches:
  "top_cmd ex_human ex_ctx Branches 10 =
     ([not_found_notice ex_fork_gone, Echo [Tabulate ex_rows_branches (headers Branches)]], None)"
  by (simp add: top_cmd_def ex_forks_branches ex_sorted_branches slice_to_def ex_humanized_branches
      del: humanize_dates.simps)

section \<open>The claims\<close>

text \<open>
  C1: run from the command line, \<open>fnm\<close> ends with AttributeError and has echoed nothing,
  although the fork of ann has commits with the message "fix", which is not an upstream
  message. Handed the repository object in place of its name, \<open>fnm\<close> echoes nothing
  for that message either: its first \<open>click.echo\<close> for the fork raises.
\<close>

theorem fnm_run_has_no_entry:
  "map message (items (fork.commits ex_fork_ann)) = [''fix'', ''fix'', ''init''] \<and>
   map message (items (repository.commits ex_upstream)) = [''init''] \<and>
   ex_fork_ann \<in> set (items (repository.forks ex_upstream)) \<and>
   run_fnm ex_session ''/octo/repo'' = ([], Some AttributeError) \<and>
   fnm ex_ctx = ([], Some AttributeError)"
proof -
  have "map message (items (fork.commits ex_fork_ann)) = [''fix'', ''fix'', ''init'']"
    by (simp add: ex_fork_ann_def ex_commit_init_def ex_commit_fix1_def ex_commit_fix2_def)
  moreover have "map message (items (repository.commits ex_upstream)) = [''init'']"
    by (simp add: ex_upstream_def ex_commit_init_def)
  moreover have "ex_fork_ann \<in> set (items (repository.forks ex_upstream))"
    by (simp add: ex_upstream_def)
  moreover have "run_fnm ex_session ''/octo/repo'' = ([], Some AttributeError)"
    by (simp add: run_fnm_def ex_cli fnm_def)
  ultimately show ?thesis using ex_fnm by blast
qed

text \<open>
  C2, as amended. When \<open>top\<close> completes, the rows of the table are the humanized rows
  of \<open>sorted_forks[:rows]\<close>, in the same order, and those are in descending order of the
  fetched value of the chosen field (for a key other than the two dates the rows of the
  table themselves are). For \<open>rows \<ge> 0\<close> the table has \<open>min(rows, len(repos))\<close> rows,
  so at most \<open>rows\<close>; for a negative \<open>rows\<close> the slice drops the last \<open>-rows\<close>
  rows instead. Without \<open>--rows\<close> the limit is 10.
\<close>

theorem top_sorted_and_limited:
  assumes "top_cmd human repo_ctx s rows = (out, None)"
  shows "humanize_dates human (slice_to rows (sorted_forks repo_ctx s)) = Inr (rendered out) \<and>
         sorted_wrt (\<lambda>a b. \<not> attr_lt s a b) (slice_to rows (sorted_forks repo_ctx s)) \<and>
         (s \<notin> {Updated_at, Pushed_at} \<longrightarrow> sorted_wrt (\<lambda>a b. \<not> attr_lt s a b) (rendered out)) \<and>
         length (rendered out) =
           (if 0 \<le> rows then min (nat rows) (length (repos repo_ctx s))
            else length (repos repo_ctx s) - nat (- rows)) \<and>
         (0 \<le> rows \<longrightarrow> int (length (rendered out)) \<le> rows) \<and>
         top_options human repo_ctx (Some s) None = top_cmd human repo_ctx s 10"
proof -
  let ?ranked = "slice_to rows (sorted_forks repo_ctx s)"
  from assms have h: "humanize_dates human ?ranked = Inr (rendered out)"
    by (simp add: top_cmd_completes)
  have desc: "sorted_wrt (\<lambda>a b. \<not> attr_lt s a b) ?ranked"
    unfolding sorted_forks_def
    by (intro sorted_wrt_slice_to sorted_py_reverse_descending attr_lt_asym attr_lt_cotrans)
  from h have rel: "list_all2 (\<lambda>h r. \<exists>u p. human (updated_at r) = Inr u \<and> human (pushed_at r) = Inr p \<and>
        h = r\<lparr>updated_at := u, pushed_at := p\<rparr>) (rendered out) ?ranked"
    by (rule humanize_dates_rows)
  have rend: "sorted_wrt (\<lambda>a b. \<not> attr_lt s a b) (rendered out)" if "s \<notin> {Updated_at, Pushed_at}"
    using rel desc
  proof (rule sorted_wrt_list_all2)
    fix h r h' r'
    assume "\<exists>u p. human (updated_at r) = Inr u \<and> human (pushed_at r) = Inr p \<and>
        h = r\<lparr>updated_at := u, pushed_at := p\<rparr>"
      and "\<exists>u p. human (updated_at r') = Inr u \<and> human (pushed_at r') = Inr p \<and>
        h' = r'\<lparr>updated_at := u, pushed_at := p\<rparr>"
      and "\<not> attr_lt s r r'"
    with that show "\<not> attr_lt s h h'"
      by (auto simp: attr_lt_humanized)
  qed
  from rel have "length (rendered out) = length ?ranked"
    by (rule list_all2_lengthD)
  then have len: "length (rendered out) =
           (if 0 \<le> rows then min (nat rows) (length (repos repo_ctx s))
            else length (repos repo_ctx s) - nat (- rows))"
    by (simp add: length_slice_to sorted_forks_def length_sorted_py)
  then have "int (length (rendered out)) \<le> rows" if "0 \<le> rows"
    using that by simp
  moreover have "top_options human repo_ctx (Some s) None = top_cmd human repo_ctx s 10"
    by (simp add: top_options_def)
  ultimately show ?thesis using h desc rend len by blast
qed

theorem top_sorted_and_limited_witness:
  "top_cmd ex_human ex_ctx Star 2 = ([Echo [Tabulate ex_rows (headers Star)]], None) \<and>
   sorted_wrt (\<lambda>a b. \<not> attr_lt Star a b) ex_rows \<and>
   length ex_rows = 2 \<and>
   top_options ex_human ex_ctx (Some Star) None = top_cmd ex_human ex_ctx Star 10"
  using top_sorted_and_limited [OF ex_top_star_2] by (simp add: ex_top_star_2 ex_repos_star)

text \<open>
  C2, as stated, fails for a negative row limit: with \<open>--rows -1\<close> and three forks the
  table has two rows, which is more than \<open>rows\<close>.
\<close>

theorem top_negative_rows_counterexample:
  "top_cmd ex_human ex_ctx Star (- 1) = ([Echo [Tabulate ex_rows (headers Star)]], None) \<and>
   length (rendered (fst (top_cmd ex_human ex_ctx Star (- 1)))) = 2 \<and>
   \<not> int (length (rendered (fst (top_cmd ex_human ex_ctx Star (- 1))))) \<le> - 1"
  by (simp add: ex_top_star_neg) (simp add: ex_rows_def)

text \<open>
  C3, for \<open>fnm\<close>: run from the command line on a repository with a fork whose commits
  answer 404, \<open>fnm\<close> ends with AttributeError and has echoed nothing, no notice either.
\<close>

theorem fnm_run_prints_no_notice:
  "ex_fork_gone \<in> set (items (repository.forks ex_upstream)) \<and>
   fork.commits ex_fork_gone = Raise NotFoundError \<and>
   run_fnm ex_session ''/octo/repo'' = ([], Some AttributeError)"
  by (simp add: run_fnm_def ex_cli fnm_def) (simp add: ex_upstream_def ex_fork_gone_def)

text \<open>
  C4: the context \<open>cli\<close> builds holds in its \<open>repository\<close> field the name taken from
  the URL, not the repository that \<open>gh.repository\<close> returned.
\<close>

theorem cli_context_holds_name:
  "github.repository ex_session ''octo'' ''repo'' = Inr ex_upstream \<and>
   map_sum id RepoCtx.repository (cli ex_session ''/octo/repo'') = Inr (Str ''repo'')"
  by (simp add: ex_cli) (simp add: ex_session_def)

text \<open>
  C5: run from the command line, \<open>fnm\<close> reports no commit at all, although the fork of
  ann has a commit whose message is not an upstream message.
\<close>

theorem fnm_run_reports_nothing:
  "ex_fork_ann \<in> set (items (repository.forks ex_upstream)) \<and>
   ex_commit_fix1 \<in> set (items (fork.commits ex_fork_ann)) \<and>
   message ex_commit_fix1 \<notin> set (map message (items (repository.commits ex_upstream))) \<and>
   fst (run_fnm ex_session ''/octo/repo'') = []"
  by (simp add: run_fnm_def ex_cli fnm_def)
    (simp add: ex_upstream_def ex_fork_ann_def ex_commit_fix1_def ex_commit_init_def)

text \<open>
  C6. The exception a command ends with is the first one raised that is not the
  NotFoundError of one fork's own call: in \<open>fnm\<close> the AttributeError of a context that
  holds a name, else what the upstream commit listing raises, else \<open>uncaught\<close> over what
  the body of the \<open>try\<close> raises for each fork (the exception of the fork's commit listing,
  or the AttributeError of \<open>click.echo\<close>); in \<open>top\<close> \<open>uncaught\<close> over the forks'
  secondary calls, else what humanizing a date raises. Nothing but a fork's own
  NotFoundError is recovered.
\<close>

theorem only_fork_not_found_is_recovered:
  "snd (fnm repo_ctx) =
     (case RepoCtx.repository repo_ctx of
        Str n \<Rightarrow> Some AttributeError
      | Repository r \<Rightarrow>
          (case iter_end (repository.commits r) of
             Some e \<Rightarrow> Some e
           | None \<Rightarrow>
               uncaught
                 (\<lambda>fk. try_raises (map message (items (repository.commits r))) (fork.commits fk))
                 (RepoCtx.forks repo_ctx))) \<and>
   snd (top_cmd human repo_ctx s rows) =
     (case uncaught (secondary (gh repo_ctx) s) (RepoCtx.forks repo_ctx) of
        Some e \<Rightarrow> Some e
      | None \<Rightarrow>
          (case humanize_dates human (slice_to rows (sorted_forks repo_ctx s)) of
             Inl e \<Rightarrow> Some e
           | Inr hs \<Rightarrow> None))"
proof -
  have "snd (top_cmd human repo_ctx s rows) =
     (case uncaught (secondary (gh repo_ctx) s) (RepoCtx.forks repo_ctx) of
        Some e \<Rightarrow> Some e
      | None \<Rightarrow>
          (case humanize_dates human (slice_to rows (sorted_forks repo_ctx s)) of
             Inl e \<Rightarrow> Some e
           | Inr hs \<Rightarrow> None))"
    using top_forks_end [of "gh repo_ctx" s "RepoCtx.forks repo_ctx"]
    by (cases "top_forks (gh repo_ctx) s (RepoCtx.forks repo_ctx)")
      (auto simp: top_cmd_def split: option.splits sum.splits)
  moreover have "snd (fnm repo_ctx) =
     (case RepoCtx.repository repo_ctx of
        Str n \<Rightarrow> Some AttributeError
      | Repository r \<Rightarrow>
          (case iter_end (repository.commits r) of
             Some e \<Rightarrow> Some e
           | None \<Rightarrow>
               uncaught
                 (\<lambda>fk. try_raises (map message (items (repository.commits r))) (fork.commits fk))
                 (RepoCtx.forks repo_ctx)))"
    by (auto simp: fnm_def to_list_eq fnm_forks_end split: pyobj.splits option.splits)
  ultimately show ?thesis by simp
qed

text \<open>
  C7. The table \<open>top\<close> echoes has the six fixed headers, followed by the capitalized
  sort key exactly when the key is watchers, commits or branches; the keys of \<open>columns\<close>
  follow the same rule, and every row has the seventh field exactly in that case.
\<close>

theorem top_table_columns:
  assumes "top_cmd human repo_ctx s rows = (out, None)"
  shows "rendered_headers out =
           [''URL'', ''Stars'', ''Forks'', ''Open Issues'', ''Last update'', ''Pushed At''] @
           (if s = Watchers_count then [''Watchers'']
            else if s = Commits then [''Commits'']
            else if s = Branches then [''Branches''] else []) \<and>
         map fst (columns s) =
           [''html_url'', ''stargazers_count'', ''forks_count'', ''open_issues_count'',
            ''updated_at'', ''pushed_at''] @
           (if s \<in> {Watchers_count, Commits, Branches} then [flag_value s] else []) \<and>
         (\<forall>r\<in>set (rendered out). (extra r \<noteq> None) = (s \<in> {Watchers_count, Commits, Branches}))"
proof -
  let ?ranked = "slice_to rows (sorted_forks repo_ctx s)"
  from assms have h: "humanize_dates human ?ranked = Inr (rendered out)"
    and hd: "rendered_headers out = headers s"
    by (simp_all add: top_cmd_completes)
  from h have rel: "list_all2 (\<lambda>h r. \<exists>u p. human (updated_at r) = Inr u \<and> human (pushed_at r) = Inr p \<and>
        h = r\<lparr>updated_at := u, pushed_at := p\<rparr>) (rendered out) ?ranked"
    by (rule humanize_dates_rows)
  have "(extra h \<noteq> None) = (s \<in> {Watchers_count, Commits, Branches})" if "h \<in> set (rendered out)" for h
  proof -
    from rel that obtain r u p where "r \<in> set ?ranked" and hr: "h = r\<lparr>updated_at := u, pushed_at := p\<rparr>"
      by (blast dest: list_all2_set1)
    with ranked_subset [of rows repo_ctx s] have "r \<in> set (fst (top_forks (gh repo_ctx) s (RepoCtx.forks repo_ctx)))"
      by (auto simp: repos_def)
    then have "(extra r \<noteq> None) = (s \<in> {Watchers_count, Commits, Branches})"
      by (rule top_forks_extra)
    with hr show ?thesis by simp
  qed
  with hd show ?thesis by (simp add: headers_eq columns_eq del: insert_iff)
qed

theorem top_table_columns_witness:
  "top_cmd ex_human ex_ctx Branches 10 =
     ([not_found_notice ex_fork_gone, Echo [Tabulate ex_rows_branches (headers Branches)]], None) \<and>
   headers Branches =
     [''URL'', ''Stars'', ''Forks'', ''Open Issues'', ''Last update'', ''Pushed At'', ''Branches''] \<and>
   map extra ex_rows_branches = [Some 2, Some 1]"
  using top_table_columns [OF ex_top_branches]
  by (simp add: ex_top_branches rendered_headers_def not_found_notice_def ex_rows_branches_def)

text \<open>
  C8. Row by row, the table differs from \<open>sorted_forks[:rows]\<close> in \<open>updated_at\<close> and
  \<open>pushed_at\<close> only, which hold the humanized dates: URL, stars, forks, open issues and
  the seventh field are those of the row as fetched, a member of \<open>repos\<close>.
\<close>

theorem humanize_changes_dates_only:
  assumes "top_cmd human repo_ctx s rows = (out, None)"
  shows "list_all2
           (\<lambda>h r. Repo.html_url h = Repo.html_url r \<and>
                  stargazers_count h = stargazers_count r \<and>
                  forks_count h = forks_count r \<and>
                  open_issues_count h = open_issues_count r \<and>
                  extra h = extra r \<and>
                  human (updated_at r) = Inr (updated_at h) \<and>
                  human (pushed_at r) = Inr (pushed_at h))
           (rendered out) (slice_to rows (sorted_forks repo_ctx s)) \<and>
         set (slice_to rows (sorted_forks repo_ctx s)) \<subseteq> set (repos repo_ctx s)"
proof -
  from assms have "humanize_dates human (slice_to rows (sorted_forks repo_ctx s)) = Inr (rendered out)"
    by (simp add: top_cmd_completes)
  then have "list_all2 (\<lambda>h r. \<exists>u p. human (updated_at r) = Inr u \<and> human (pushed_at r) = Inr p \<and>
        h = r\<lparr>updated_at := u, pushed_at := p\<rparr>) (rendered out) (slice_to rows (sorted_forks repo_ctx s))"
    by (rule humanize_dates_rows)
  then have "list_all2
           (\<lambda>h r. Repo.html_url h = Repo.html_url r \<and>
                  stargazers_count h = stargazers_count r \<and>
                  forks_count h = forks_count r \<and>
                  open_issues_count h = open_issues_count r \<and>
                  extra h = extra r \<and>
                  human (updated_at r) = Inr (updated_at h) \<and>
                  human (pushed_at r) = Inr (pushed_at h))
           (rendered out) (slice_to rows (sorted_forks repo_ctx s))"
    by (rule list_all2_mono) auto
  with ranked_subset [of rows repo_ctx s] show ?thesis by simp
qed

theorem humanize_changes_dates_only_witness:
  "top_cmd ex_human ex_ctx Branches 10 =
     ([not_found_notice ex_fork_gone, Echo [Tabulate ex_rows_branches (headers Branches)]], None) \<and>
   slice_to 10 (sorted_forks ex_ctx Branches) =
     [(def_prop ex_fork_ann)\<lparr>extra := Some 2\<rparr>, (def_prop ex_fork_bob)\<lparr>extra := Some 1\<rparr>] \<and>
   map Repo.html_url ex_rows_branches = map fork.html_url [ex_fork_ann, ex_fork_bob] \<and>
   map stargazers_count ex_rows_branches = map fork.stargazers_count [ex_fork_ann, ex_fork_bob] \<and>
   map extra ex_rows_branches = [Some 2, Some 1] \<and>
   map updated_at ex_rows_branches = [''since 2020'', ''since 2021'']"
proof -
  have "slice_to 10 (sorted_forks ex_ctx Branches) =
     [(def_prop ex_fork_ann)\<lparr>extra := Some 2\<rparr>, (def_prop ex_fork_bob)\<lparr>extra := Some 1\<rparr>]"
    by (simp add: ex_sorted_branches slice_to_def)
  moreover have "map Repo.html_url ex_rows_branches = map fork.html_url [ex_fork_ann, ex_fork_bob]"
    "map stargazers_count ex_rows_branches = map fork.stargazers_count [ex_fork_ann, ex_fork_bob]"
    "map extra ex_rows_branches = [Some 2, Some 1]"
    "map updated_at ex_rows_branches = [''since 2020'', ''since 2021'']"
    by (simp_all add: ex_rows_branches_def ex_fork_ann_def ex_fork_bob_def)
  ultimately show ?thesis
    using humanize_changes_dates_only [OF ex_top_branches] ex_top_branches by blast
qed

text \<open>
  C9. With a fast sort key the loop of \<open>top\<close> appends the row of every listed fork, in
  listing order, and echoes no notice; what it returns does not depend on the session or
  on what the forks' branches and contributors calls would answer, so none of them is made.
\<close>

theorem top_fast_key_keeps_every_fork:
  assumes "s \<in> {Star, Forks, Open_issues, Updated_at, Pushed_at}"
  shows "top_forks g s fs = (map def_prop (items fs), [], iter_end fs) \<and>
         repos repo_ctx s = map def_prop (items (RepoCtx.forks repo_ctx)) \<and>
         top_forks g' s (map_iter (\<lambda>fk. fk\<lparr>branches := bs fk, contributors := cs fk\<rparr>) fs) =
           top_forks g s fs"
proof -
  from assms have fast: "flag_value s \<notin> {''branches'', ''commits'', ''watchers''}"
    by auto
  have "def_prop (fk\<lparr>branches := b, contributors := c\<rparr>) = def_prop fk" for fk b c
    by (simp add: def_prop_def)
  then show ?thesis
    by (simp add: top_forks_fast [OF fast] repos_def items_map_iter iter_end_map_iter o_def)
qed

theorem top_fast_key_keeps_every_fork_witness:
  "Star \<in> {Star, Forks, Open_issues, Updated_at, Pushed_at} \<and>
   top_forks (gh ex_ctx) Star (RepoCtx.forks ex_ctx) =
     ([def_prop ex_fork_ann, def_prop ex_fork_gone, def_prop ex_fork_bob], [], None) \<and>
   repos ex_ctx Star = [def_prop ex_fork_ann, def_prop ex_fork_gone, def_prop ex_fork_bob]"
proof -
  have h: "Star \<in> {Star, Forks, Open_issues, Updated_at, Pushed_at}" by simp
  show ?thesis
    using top_fast_key_keeps_every_fork [OF h, of "gh ex_ctx" "RepoCtx.forks ex_ctx" ex_ctx]
    by (simp add: ex_forks)
qed

text \<open>
  C10. The rows of \<open>repos\<close> are those of the listed forks in listing order; sorting keeps
  the rows with the same value of the sort field in the order they have in \<open>repos\<close>, and
  the slice and the humanized table keep the order of \<open>sorted_forks\<close>.
\<close>

theorem top_sort_is_stable:
  assumes "top_cmd human repo_ctx s rows = (out, None)"
  shows "repos repo_ctx s =
           List.map_filter (row_of (gh repo_ctx) s) (items (RepoCtx.forks repo_ctx)) \<and>
         filter (attr_eq s x) (sorted_forks repo_ctx s) = filter (attr_eq s x) (repos repo_ctx s) \<and>
         prefix (filter (attr_eq s x) (slice_to rows (sorted_forks repo_ctx s)))
           (filter (attr_eq s x) (repos repo_ctx s)) \<and>
         humanize_dates human (slice_to rows (sorted_forks repo_ctx s)) = Inr (rendered out)"
proof -
  from assms have h: "humanize_dates human (slice_to rows (sorted_forks repo_ctx s)) = Inr (rendered out)"
    and e: "snd (snd (top_forks (gh repo_ctx) s (RepoCtx.forks repo_ctx))) = None"
    by (simp_all add: top_cmd_completes)
  from e have rows: "repos repo_ctx s =
      List.map_filter (row_of (gh repo_ctx) s) (items (RepoCtx.forks repo_ctx))"
    by (simp add: repos_def top_forks_rows)
  have eq: "attr_eq s x = (\<lambda>y. \<not> attr_lt s y x \<and> \<not> attr_lt s x y)"
    by (rule ext) (simp add: attr_eq_iff)
  have stable: "filter (attr_eq s x) (sorted_forks repo_ctx s) = filter (attr_eq s x) (repos repo_ctx s)"
    unfolding eq sorted_forks_def
    by (rule sorted_py_reverse_stable) (rule attr_lt_cotrans)
  have "prefix (filter (attr_eq s x) (slice_to rows (sorted_forks repo_ctx s)))
          (filter (attr_eq s x) (sorted_forks repo_ctx s))"
    by (intro prefix_filter slice_to_prefix)
  with stable rows h show ?thesis by simp
qed

theorem top_sort_is_stable_witness:
  "top_cmd ex_human ex_ctx Star 2 = ([Echo [Tabulate ex_rows (headers Star)]], None) \<and>
   attr_eq Star (def_prop ex_fork_ann) (def_prop ex_fork_gone) \<and>
   repos ex_ctx Star = [def_prop ex_fork_ann, def_prop ex_fork_gone, def_prop ex_fork_bob] \<and>
   sorted_forks ex_ctx Star = [def_prop ex_fork_bob, def_prop ex_fork_ann, def_prop ex_fork_gone] \<and>
   filter (attr_eq Star (def_prop ex_fork_ann)) (sorted_forks ex_ctx Star) =
     filter (attr_eq Star (def_prop ex_fork_ann)) (repos ex_ctx Star)"
proof -
  have "attr_eq Star (def_prop ex_fork_ann) (def_prop ex_fork_gone)"
    by (simp add: def_prop_def ex_fork_ann_def ex_fork_gone_def)
  moreover from top_sort_is_stable [OF ex_top_star_2, of "def_prop ex_fork_ann"]
  have "filter (attr_eq Star (def_prop ex_fork_ann)) (sorted_forks ex_ctx Star) =
     filter (attr_eq Star (def_prop ex_fork_ann)) (repos ex_ctx Star)"
    by blast
  ultimately show ?thesis
    using ex_top_star_2 ex_repos_star ex_sorted_star by blast
qed

end
